theory Spec2Isabelle
  imports Main "HOL-Library.AList"
begin

section \<open>Values, instance dictionaries and exceptions\<close>

text \<open>
  The program is the Python module \<^verbatim>\<open>pickle_rick\<close>: the class \<^verbatim>\<open>BasicRick\<close> turns a
  nested mapping into a tree of objects whose instance dictionary \<^verbatim>\<open>__dict__\<close> holds the
  mapping's keys, and the subclass \<^verbatim>\<open>ExtendedPickleRick\<close> resolves two placeholder shapes
  while it builds.

  A Python value of the model is \<^verbatim>\<open>None\<close>, a \<^verbatim>\<open>bool\<close>, an \<^verbatim>\<open>int\<close>, a \<^verbatim>\<open>str\<close>, a
  \<^verbatim>\<open>list\<close>, a \<^verbatim>\<open>dict\<close> with string keys, or an instance of one of the two classes,
  given by its class and its \<^verbatim>\<open>__dict__\<close>. A \<^verbatim>\<open>dict\<close> is an association list in
  insertion order; a well-formed one has no key twice. No value of the model is callable.
\<close>

datatype cls = BasicRick | ExtendedPickleRick

datatype val =
    VNone
  | VBool bool
  | VInt int
  | VStr string
  | VList "val list"
  | VDict "(string \<times> val) list"
  | VNode cls "(string \<times> val) list"

type_synonym fields = "(string \<times> val) list"

datatype exn = TypeError | KeyError | ValueError | AttributeError | ParseError | EvalError

abbreviation fields_size :: "fields \<Rightarrow> nat" where
  "fields_size \<equiv> size_list (size_prod (\<lambda>_. 0) size)"

text \<open>
  Python's truth value of an object. \<^verbatim>\<open>BasicRick\<close> defines \<^verbatim>\<open>__len__\<close> (the number of
  entries of \<^verbatim>\<open>__dict__\<close>) and no \<^verbatim>\<open>__bool__\<close>, so an instance with no field is false.
\<close>

fun truthy :: "val \<Rightarrow> bool" where
  "truthy VNone = False"
| "truthy (VBool b) = b"
| "truthy (VInt i) = (i \<noteq> 0)"
| "truthy (VStr s) = (s \<noteq> [])"
| "truthy (VList l) = (l \<noteq> [])"
| "truthy (VDict d) = (d \<noteq> [])"
| "truthy (VNode c f) = (f \<noteq> [])"

text \<open>\<^verbatim>\<open>key in dictionary\<close>, for a \<^verbatim>\<open>dict\<close> and for an instance dictionary.\<close>

definition has_key :: "fields \<Rightarrow> string \<Rightarrow> bool" where
  "has_key d key = (map_of d key \<noteq> None)"

text \<open>
  A method call \<^verbatim>\<open>obj.name(...)\<close> looks \<^verbatim>\<open>name\<close> up on the instance first: a function of
  the class is a non-data descriptor, so an entry \<^verbatim>\<open>name\<close> of \<^verbatim>\<open>obj.__dict__\<close> is found
  before it. The build stores every key of the mapping in \<^verbatim>\<open>__dict__\<close>, so a key that is
  spelled like a method replaces that method on the instance, and the call of the stored
  value, which is not callable, raises \<^verbatim>\<open>TypeError\<close>. (\<^verbatim>\<open>__dict__\<close> itself and the
  special methods \<^verbatim>\<open>__init__\<close>, \<^verbatim>\<open>__repr__\<close>, \<^verbatim>\<open>__eq__\<close>, \<^verbatim>\<open>__len__\<close> are looked up on
  the type and are not affected.)
\<close>

definition invoke :: "fields \<Rightarrow> string \<Rightarrow> exn + 'a \<Rightarrow> exn + 'a" where
  "invoke self name body = (if has_key self name then Inl TypeError else body)"

section \<open>The tree builder: \<^verbatim>\<open>BasicRick._iternalize\<close>\<close>

text \<open>
  \<^verbatim>\<open>_iternalize(self, dictionary, deep)\<close> walks \<^verbatim>\<open>dictionary.items()\<close> and updates
  \<^verbatim>\<open>self.__dict__\<close>, the third argument here, which is returned. \<^verbatim>\<open>BasicRick(v, deep)\<close>
  on a \<^verbatim>\<open>dict\<close> is a new instance, with an empty \<^verbatim>\<open>__dict__\<close>, internalized in the same
  way. \<^verbatim>\<open>new_list_basic\<close> is the inner loop over a list, appending to \<^verbatim>\<open>new_list\<close>.
\<close>

function (sequential) iternalize_basic :: "fields \<Rightarrow> bool \<Rightarrow> fields \<Rightarrow> fields"
  and new_list_basic :: "val list \<Rightarrow> bool \<Rightarrow> val list \<Rightarrow> val list"
where
  "iternalize_basic [] deep self = self"
| "iternalize_basic ((k, VDict d) # items) deep self =
     iternalize_basic items deep
       (AList.update k (VNode BasicRick (iternalize_basic d deep [])) self)"
| "iternalize_basic ((k, VList l) # items) deep self =
     (if deep
      then iternalize_basic items deep
             (AList.update k (VList (new_list_basic l deep [])) self)
      else iternalize_basic items deep (AList.update k (VList l) self))"
| "iternalize_basic ((k, v) # items) deep self =
     iternalize_basic items deep (AList.update k v self)"
| "new_list_basic [] deep new_list = new_list"
| "new_list_basic (VDict d # rest) deep new_list =
     new_list_basic rest deep (new_list @ [VNode BasicRick (iternalize_basic d deep [])])"
| "new_list_basic (i # rest) deep new_list = new_list_basic rest deep (new_list @ [i])"
  by pat_completeness auto
termination
  by (relation "measure (\<lambda>x. case x of
         Inl (items, deep, self) \<Rightarrow> fields_size items
       | Inr (l, deep, new_list) \<Rightarrow> size_list size l)") auto

text \<open>\<^verbatim>\<open>BasicRick(M, deep)\<close> for a mapping \<^verbatim>\<open>M\<close>.\<close>

definition build :: "fields \<Rightarrow> bool \<Rightarrow> val" where
  "build M deep = VNode BasicRick (iternalize_basic M deep [])"

text \<open>
  The build step as the specification words it, value by value: a mapping becomes a child
  node, a list is rebuilt only when \<^verbatim>\<open>deep\<close> is set, anything else is kept.
\<close>

definition spec_element :: "bool \<Rightarrow> val \<Rightarrow> val" where
  "spec_element deep i = (case i of VDict d \<Rightarrow> build d deep | _ \<Rightarrow> i)"

definition spec_stored :: "bool \<Rightarrow> val \<Rightarrow> val" where
  "spec_stored deep v =
     (case v of
        VDict d \<Rightarrow> build d deep
      | VList l \<Rightarrow> if deep then VList (map (spec_element deep) l) else VList l
      | _ \<Rightarrow> v)"

section \<open>Deconstruction: \<^verbatim>\<open>BasicRick.dict\<close>\<close>

text \<open>
  \<^verbatim>\<open>dict(self)\<close> fills a fresh \<^verbatim>\<open>d\<close> from \<^verbatim>\<open>self.__dict__.items()\<close>; a value that is an
  instance is replaced by the result of the method call \<^verbatim>\<open>value.dict()\<close>, every other
  value (a list with instances in it too) is copied as it is.
\<close>

function (sequential) dict_loop :: "fields \<Rightarrow> fields \<Rightarrow> exn + fields" where
  "dict_loop [] d = Inr d"
| "dict_loop ((key, VNode c f) # items) d =
     (case invoke f ''dict'' (dict_loop f []) of
        Inl e \<Rightarrow> Inl e
      | Inr sub \<Rightarrow> dict_loop items (AList.update key (VDict sub) d))"
| "dict_loop ((key, v) # items) d = dict_loop items (AList.update key v d)"
  by pat_completeness auto
termination
  by (relation "measure (\<lambda>(items, d). fields_size items)") auto

definition dict :: "fields \<Rightarrow> exn + fields" where
  "dict self = dict_loop self []"

text \<open>The call \<^verbatim>\<open>node.dict()\<close> on a value.\<close>

fun call_dict :: "val \<Rightarrow> exn + fields" where
  "call_dict (VNode c f) = invoke f ''dict'' (dict f)"
| "call_dict v = Inl AttributeError"

section \<open>Search: \<^verbatim>\<open>_recursive_search\<close>, \<^verbatim>\<open>get\<close>, \<^verbatim>\<open>has\<close>\<close>

text \<open>
  \<^verbatim>\<open>_recursive_search(self, dictionary, key)\<close> returns \<^verbatim>\<open>dictionary[key]\<close> when the key is
  there; otherwise it loops over the items, descends into instances and into raw mappings,
  and returns the first result that is true; the end of the loop returns \<^verbatim>\<open>None\<close>.
  Lists are not entered.
\<close>

function (sequential) recursive_search :: "fields \<Rightarrow> string \<Rightarrow> val"
  and search_loop :: "fields \<Rightarrow> string \<Rightarrow> val"
where
  "recursive_search dictionary key =
     (case map_of dictionary key of
        Some v \<Rightarrow> v
      | None \<Rightarrow> search_loop dictionary key)"
| "search_loop [] key = VNone"
| "search_loop ((k, VNode c f) # items) key =
     (let value = recursive_search f key
      in if truthy value then value else search_loop items key)"
| "search_loop ((k, VDict f) # items) key =
     (let value = recursive_search f key
      in if truthy value then value else search_loop items key)"
| "search_loop ((k, v) # items) key = search_loop items key"
  by pat_completeness auto
termination
  by (relation "measure (\<lambda>x. case x of
         Inl (d, key) \<Rightarrow> 2 * fields_size d + 1
       | Inr (d, key) \<Rightarrow> 2 * fields_size d)") auto

text \<open>
  \<^verbatim>\<open>str.lower\<close> and \<^verbatim>\<open>str.upper\<close> on the letters of ASCII; the model's keys are ASCII
  text, and every other character is left as it is.
\<close>

definition char_lower :: "char \<Rightarrow> char" where
  "char_lower c =
     (case map_of (zip ''ABCDEFGHIJKLMNOPQRSTUVWXYZ'' ''abcdefghijklmnopqrstuvwxyz'') c of
        Some l \<Rightarrow> l
      | None \<Rightarrow> c)"

definition char_upper :: "char \<Rightarrow> char" where
  "char_upper c =
     (case map_of (zip ''abcdefghijklmnopqrstuvwxyz'' ''ABCDEFGHIJKLMNOPQRSTUVWXYZ'') c of
        Some u \<Rightarrow> u
      | None \<Rightarrow> c)"

definition lower :: "string \<Rightarrow> string" where
  "lower s = map char_lower s"

definition upper :: "string \<Rightarrow> string" where
  "upper s = map char_upper s"

text \<open>
  \<^verbatim>\<open>get(self, key, default)\<close>: each \<^verbatim>\<open>self._recursive_search\<close> is a method call on the
  root, the first of them is always made.
\<close>

definition get :: "fields \<Rightarrow> string \<Rightarrow> val \<Rightarrow> exn + val" where
  "get self key dflt =
     invoke self ''_recursive_search''
       (let value = recursive_search self key;
            value = (if \<not> truthy value
                     then (let value = recursive_search self (lower key)
                           in if \<not> truthy value
                              then recursive_search self (upper key)
                              else value)
                     else value)
        in if \<not> truthy value then Inr dflt else Inr value)"

fun call_get :: "val \<Rightarrow> string \<Rightarrow> val \<Rightarrow> exn + val" where
  "call_get (VNode c f) key dflt = invoke f ''get'' (get f key dflt)"
| "call_get v key dflt = Inl AttributeError"

text \<open>\<^verbatim>\<open>has(self, key, deep)\<close>.\<close>

definition has :: "fields \<Rightarrow> string \<Rightarrow> bool \<Rightarrow> exn + bool" where
  "has self key deep =
     (if has_key self key then Inr True
      else if deep
      then invoke self ''_recursive_search''
             (let value = recursive_search self key
              in if truthy value then Inr True else Inr False)
      else Inr False)"

fun call_has :: "val \<Rightarrow> string \<Rightarrow> bool \<Rightarrow> exn + bool" where
  "call_has (VNode c f) key deep = invoke f ''has'' (has f key deep)"
| "call_has v key deep = Inl AttributeError"

text \<open>
  The values stored under a key at the positions the search visits, in the order of the
  visit: the dictionary itself, then, item by item, the instances and raw mappings below
  it. This is the specification's reading of the search (depth-first, first match).
\<close>

function (sequential) stored_under :: "fields \<Rightarrow> string \<Rightarrow> val list"
  and stored_below :: "fields \<Rightarrow> string \<Rightarrow> val list"
where
  "stored_under d key =
     (case map_of d key of Some v \<Rightarrow> [v] | None \<Rightarrow> []) @ stored_below d key"
| "stored_below [] key = []"
| "stored_below ((k, VNode c f) # items) key = stored_under f key @ stored_below items key"
| "stored_below ((k, VDict f) # items) key = stored_under f key @ stored_below items key"
| "stored_below ((k, v) # items) key = stored_below items key"
  by pat_completeness auto
termination
  by (relation "measure (\<lambda>x. case x of
         Inl (d, key) \<Rightarrow> 2 * fields_size d + 1
       | Inr (d, key) \<Rightarrow> 2 * fields_size d)") auto

section \<open>Properties of mappings\<close>

text \<open>
  \<^verbatim>\<open>all_levels P d\<close>: \<^verbatim>\<open>P\<close> holds of \<^verbatim>\<open>d\<close> and of every mapping and instance dictionary
  nested in it as a value (at any depth, not inside lists).
\<close>

function (sequential) all_levels :: "(fields \<Rightarrow> bool) \<Rightarrow> fields \<Rightarrow> bool"
  and all_levels_items :: "(fields \<Rightarrow> bool) \<Rightarrow> fields \<Rightarrow> bool"
where
  "all_levels P d = (P d \<and> all_levels_items P d)"
| "all_levels_items P [] = True"
| "all_levels_items P ((k, VDict d) # items) = (all_levels P d \<and> all_levels_items P items)"
| "all_levels_items P ((k, VNode c d) # items) = (all_levels P d \<and> all_levels_items P items)"
| "all_levels_items P ((k, v) # items) = all_levels_items P items"
  by pat_completeness auto
termination
  by (relation "measure (\<lambda>x. case x of
         Inl (P, d) \<Rightarrow> 2 * fields_size d + 1
       | Inr (P, d) \<Rightarrow> 2 * fields_size d)") auto

text \<open>A Python \<^verbatim>\<open>dict\<close> holds a key once.\<close>

definition distinct_keys :: "fields \<Rightarrow> bool" where
  "distinct_keys d = distinct (map fst d)"

definition well_formed :: "fields \<Rightarrow> bool" where
  "well_formed M = all_levels distinct_keys M"

text \<open>No mapping of \<^verbatim>\<open>M\<close> has a key of this name.\<close>

definition no_key :: "string \<Rightarrow> fields \<Rightarrow> bool" where
  "no_key name M = all_levels (\<lambda>d. \<not> has_key d name) M"

text \<open>
  A mapping without nested lists: every value is a scalar or again such a mapping.
\<close>

function (sequential) no_lists :: "fields \<Rightarrow> bool" where
  "no_lists [] = True"
| "no_lists ((k, VDict d) # items) = (no_lists d \<and> no_lists items)"
| "no_lists ((k, VList l) # items) = False"
| "no_lists ((k, VNode c f) # items) = False"
| "no_lists ((k, v) # items) = no_lists items"
  by pat_completeness auto
termination
  by (relation "measure fields_size") auto

text \<open>
  Plain data, as a document holds it and as \<^verbatim>\<open>dict()\<close> is meant to return it: no
  instance of the two classes as a value of a mapping, at any depth outside lists.
\<close>

function (sequential) no_nodes :: "fields \<Rightarrow> bool" where
  "no_nodes [] = True"
| "no_nodes ((k, VDict d) # items) = (no_nodes d \<and> no_nodes items)"
| "no_nodes ((k, VNode c f) # items) = False"
| "no_nodes ((k, v) # items) = no_nodes items"
  by pat_completeness auto
termination
  by (relation "measure fields_size") auto

section \<open>The environment of the program\<close>

text \<open>
  What the program asks of its libraries and of the operating system is a parameter of
  the model: the process environment read by \<^verbatim>\<open>os.getenv\<close>, Python's \<^verbatim>\<open>eval\<close> on a
  source string, \<^verbatim>\<open>os.path.isfile\<close> on a path, the text \<^verbatim>\<open>open(path, 'r')\<close> gives to a
  parser, the YAML and JSON parsers on a text, and \<^verbatim>\<open>yaml.safe_dump\<close> on a mapping.
  Each of them returns a value of the model or raises; a function object, which \<^verbatim>\<open>eval\<close>
  can return, is not a value of the model.
\<close>

record world =
  getenv :: "string \<Rightarrow> string option"
  eval :: "string \<Rightarrow> exn + val"
  isfile :: "string \<Rightarrow> bool"
  read_file :: "string \<Rightarrow> exn + string"
  yaml_load :: "string \<Rightarrow> exn + val"
  json_load :: "string \<Rightarrow> exn + val"
  yaml_dump :: "fields \<Rightarrow> exn + string"

text \<open>\<^verbatim>\<open>v[key]\<close> on a \<^verbatim>\<open>dict\<close>.\<close>

definition subscript :: "fields \<Rightarrow> string \<Rightarrow> exn + val" where
  "subscript v key = (case map_of v key of None \<Rightarrow> Inl KeyError | Some x \<Rightarrow> Inr x)"

text \<open>
  \<^verbatim>\<open>os.getenv(key, default)\<close>: the variable's value as a \<^verbatim>\<open>str\<close>, the default object
  when it is unset; a key that is not a \<^verbatim>\<open>str\<close> raises \<^verbatim>\<open>TypeError\<close>.
\<close>

definition os_getenv :: "world \<Rightarrow> val \<Rightarrow> val \<Rightarrow> exn + val" where
  "os_getenv w key dflt =
     (case key of
        VStr name \<Rightarrow> (case getenv w name of Some s \<Rightarrow> Inr (VStr s) | None \<Rightarrow> Inr dflt)
      | _ \<Rightarrow> Inl TypeError)"

text \<open>\<^verbatim>\<open>eval(source)\<close>; a source that is not a \<^verbatim>\<open>str\<close> raises \<^verbatim>\<open>TypeError\<close>.\<close>

definition py_eval :: "world \<Rightarrow> val \<Rightarrow> exn + val" where
  "py_eval w source = (case source of VStr s \<Rightarrow> eval w s | _ \<Rightarrow> Inl TypeError)"

section \<open>The placeholder resolver: \<^verbatim>\<open>ExtendedPickleRick._iternalize\<close>\<close>

text \<open>
  The run of \<^verbatim>\<open>_iternalize\<close> either completes, with the final \<^verbatim>\<open>__dict__\<close>, or raises,
  and then \<^verbatim>\<open>__dict__\<close> keeps the entries stored before the exception.
\<close>

datatype outcome = Done fields | Raised exn fields

text \<open>
  \<^verbatim>\<open>args\<close> is always \<^verbatim>\<open>{'load_lambda': load_lambda}\<close>, a non-empty \<^verbatim>\<open>dict\<close>, so
  \<^verbatim>\<open>args and args['load_lambda']\<close> is the flag. A child
  \<^verbatim>\<open>ExtendedPickleRick(v, deep, args['load_lambda'])\<close> is a new instance internalized in
  the same way; an exception in it leaves the constructor and the parent's loop.
\<close>

function (sequential) iternalize_ext :: "world \<Rightarrow> fields \<Rightarrow> bool \<Rightarrow> bool \<Rightarrow> fields \<Rightarrow> outcome"
  and new_list_ext :: "world \<Rightarrow> val list \<Rightarrow> bool \<Rightarrow> bool \<Rightarrow> val list \<Rightarrow> exn + val list"
where
  "iternalize_ext w [] deep load_lambda self = Done self"
| "iternalize_ext w ((k, VDict v) # items) deep load_lambda self =
     (if map_of v ''type'' = Some (VStr ''env'') then
        (if has_key v ''default'' then
           (case subscript v ''load'' of
              Inl e \<Rightarrow> Raised e self
            | Inr name \<Rightarrow>
                (case subscript v ''default'' of
                   Inl e \<Rightarrow> Raised e self
                 | Inr dflt \<Rightarrow>
                     (case os_getenv w name dflt of
                        Inl e \<Rightarrow> Raised e self
                      | Inr x \<Rightarrow>
                          iternalize_ext w items deep load_lambda (AList.update k x self))))
         else
           (case subscript v ''load'' of
              Inl e \<Rightarrow> Raised e self
            | Inr name \<Rightarrow>
                (case os_getenv w name VNone of
                   Inl e \<Rightarrow> Raised e self
                 | Inr x \<Rightarrow>
                     iternalize_ext w items deep load_lambda (AList.update k x self))))
      else if map_of v ''type'' = Some (VStr ''lambda'') then
        (if load_lambda then
           (case subscript v ''load'' of
              Inl e \<Rightarrow> Raised e self
            | Inr source \<Rightarrow>
                (case py_eval w source of
                   Inl e \<Rightarrow> Raised e self
                 | Inr x \<Rightarrow>
                     iternalize_ext w items deep load_lambda (AList.update k x self)))
         else
           (case subscript v ''load'' of
              Inl e \<Rightarrow> Raised e self
            | Inr x \<Rightarrow> iternalize_ext w items deep load_lambda (AList.update k x self)))
      else
        (case iternalize_ext w v deep load_lambda [] of
           Raised e partial \<Rightarrow> Raised e self
         | Done f \<Rightarrow>
             iternalize_ext w items deep load_lambda
               (AList.update k (VNode ExtendedPickleRick f) self)))"
| "iternalize_ext w ((k, VList l) # items) deep load_lambda self =
     (if deep then
        (case new_list_ext w l deep load_lambda [] of
           Inl e \<Rightarrow> Raised e self
         | Inr new_list \<Rightarrow>
             iternalize_ext w items deep load_lambda (AList.update k (VList new_list) self))
      else iternalize_ext w items deep load_lambda (AList.update k (VList l) self))"
| "iternalize_ext w ((k, v) # items) deep load_lambda self =
     iternalize_ext w items deep load_lambda (AList.update k v self)"
| "new_list_ext w [] deep load_lambda new_list = Inr new_list"
| "new_list_ext w (VDict d # rest) deep load_lambda new_list =
     (case iternalize_ext w d deep load_lambda [] of
        Raised e partial \<Rightarrow> Inl e
      | Done f \<Rightarrow>
          new_list_ext w rest deep load_lambda (new_list @ [VNode ExtendedPickleRick f]))"
| "new_list_ext w (i # rest) deep load_lambda new_list =
     new_list_ext w rest deep load_lambda (new_list @ [i])"
  by pat_completeness auto
termination
  by (relation "measure (\<lambda>x. case x of
         Inl (w, items, deep, ll, self) \<Rightarrow> fields_size items
       | Inr (w, l, deep, ll, new_list) \<Rightarrow> size_list size l)") auto

text \<open>\<^verbatim>\<open>ExtendedPickleRick(M, deep, load_lambda)\<close> for a mapping \<^verbatim>\<open>M\<close>.\<close>

definition build_ext :: "world \<Rightarrow> fields \<Rightarrow> bool \<Rightarrow> bool \<Rightarrow> exn + val" where
  "build_ext w M deep load_lambda =
     (case iternalize_ext w M deep load_lambda [] of
        Done f \<Rightarrow> Inr (VNode ExtendedPickleRick f)
      | Raised e partial \<Rightarrow> Inl e)"

text \<open>
  What the resolver stores for one value of the mapping, or the exception the value leads
  to: the three cases of a mapping value, a list, anything else.
\<close>

definition ext_value :: "world \<Rightarrow> val \<Rightarrow> bool \<Rightarrow> bool \<Rightarrow> exn + val" where
  "ext_value w v deep load_lambda =
     (case v of
        VDict d \<Rightarrow>
          if map_of d ''type'' = Some (VStr ''env'') then
            (case subscript d ''load'' of
               Inl e \<Rightarrow> Inl e
             | Inr name \<Rightarrow>
                 os_getenv w name (case map_of d ''default'' of Some x \<Rightarrow> x | None \<Rightarrow> VNone))
          else if map_of d ''type'' = Some (VStr ''lambda'') then
            (case subscript d ''load'' of
               Inl e \<Rightarrow> Inl e
             | Inr source \<Rightarrow> if load_lambda then py_eval w source else Inr source)
          else build_ext w d deep load_lambda
      | VList l \<Rightarrow>
          if deep
          then (case new_list_ext w l deep load_lambda [] of
                  Inl e \<Rightarrow> Inl e
                | Inr new_list \<Rightarrow> Inr (VList new_list))
          else Inr (VList l)
      | _ \<Rightarrow> Inr v)"

section \<open>Construction: \<^verbatim>\<open>BasicRick.__init__\<close>\<close>

text \<open>
  The input of the constructor: a mapping, an open text stream, or a string. A stream is
  read twice, by the YAML parser and then by the JSON parser, which gets what the first
  left unread: a stream is given by these two texts.
\<close>

datatype base = BDict fields | BStream string string | BStr string

text \<open>
  The call \<^verbatim>\<open>self._iternalize(config_data, deep, args)\<close>: the method of the instance's
  class, unless an earlier, failed run has stored a field of that name. The loop starts
  with \<^verbatim>\<open>dictionary.items()\<close>, which a parsed scalar, list or \<^verbatim>\<open>None\<close> does not have.
\<close>

definition run_iternalize :: "world \<Rightarrow> cls \<Rightarrow> fields \<Rightarrow> bool \<Rightarrow> bool \<Rightarrow> fields \<Rightarrow> outcome" where
  "run_iternalize w c d deep load_lambda self =
     (case c of
        BasicRick \<Rightarrow> Done (iternalize_basic d deep self)
      | ExtendedPickleRick \<Rightarrow> iternalize_ext w d deep load_lambda self)"

definition call_iternalize :: "world \<Rightarrow> cls \<Rightarrow> val \<Rightarrow> bool \<Rightarrow> bool \<Rightarrow> fields \<Rightarrow> outcome" where
  "call_iternalize w c config_data deep load_lambda self =
     (if has_key self ''_iternalize'' then Raised TypeError self
      else (case config_data of
              VDict d \<Rightarrow> run_iternalize w c d deep load_lambda self
            | VNode c' f \<Rightarrow>
                if has_key f ''items'' then Raised TypeError self
                else run_iternalize w c f deep load_lambda self
            | _ \<Rightarrow> Raised AttributeError self))"

text \<open>One \<^verbatim>\<open>try\<close> block: parse, then internalize; \<^verbatim>\<open>except Exception\<close> catches both.\<close>

definition attempt :: "world \<Rightarrow> cls \<Rightarrow> exn + val \<Rightarrow> bool \<Rightarrow> bool \<Rightarrow> fields \<Rightarrow> outcome" where
  "attempt w c parsed deep load_lambda self =
     (case parsed of
        Inl e \<Rightarrow> Raised e self
      | Inr config_data \<Rightarrow> call_iternalize w c config_data deep load_lambda self)"

definition load_file :: "world \<Rightarrow> (string \<Rightarrow> exn + val) \<Rightarrow> string \<Rightarrow> exn + val" where
  "load_file w parse path = (case read_file w path of Inl e \<Rightarrow> Inl e | Inr text \<Rightarrow> parse text)"

text \<open>The last block, \<^verbatim>\<open>if isinstance(base, str)\<close>, and the final \<^verbatim>\<open>raise ValueError\<close>.\<close>

definition init_str :: "world \<Rightarrow> cls \<Rightarrow> string \<Rightarrow> bool \<Rightarrow> bool \<Rightarrow> fields \<Rightarrow> exn + val" where
  "init_str w c s deep load_lambda self =
     (case attempt w c (yaml_load w s) deep load_lambda self of
        Done f \<Rightarrow> Inr (VNode c f)
      | Raised e1 self1 \<Rightarrow>
          (case attempt w c (json_load w s) deep load_lambda self1 of
             Done f \<Rightarrow> Inr (VNode c f)
           | Raised e2 self2 \<Rightarrow> Inl ValueError))"

text \<open>
  \<^verbatim>\<open>__init__(self, base, deep, args)\<close>, run on a new instance of class \<^verbatim>\<open>c\<close>;
  \<^verbatim>\<open>ExtendedPickleRick.__init__\<close> passes \<^verbatim>\<open>{'load_lambda': load_lambda}\<close> as \<^verbatim>\<open>args\<close>.
  A mapping is internalized outside any \<^verbatim>\<open>try\<close>. After the two attempts on a stream the
  code goes on to \<^verbatim>\<open>os.path.isfile(base)\<close>, whose \<^verbatim>\<open>os.stat\<close> raises \<^verbatim>\<open>TypeError\<close> on an
  object that is neither a path nor a file descriptor; \<^verbatim>\<open>isfile\<close> catches \<^verbatim>\<open>OSError\<close> and
  \<^verbatim>\<open>ValueError\<close> only. A string that names a file is tried as a file and then, like any
  other string, as a document.
\<close>

fun init :: "world \<Rightarrow> cls \<Rightarrow> base \<Rightarrow> bool \<Rightarrow> bool \<Rightarrow> exn + val" where
  "init w c (BDict d) deep load_lambda =
     (case call_iternalize w c (VDict d) deep load_lambda [] of
        Done f \<Rightarrow> Inr (VNode c f)
      | Raised e partial \<Rightarrow> Inl e)"
| "init w c (BStream text rest) deep load_lambda =
     (case attempt w c (yaml_load w text) deep load_lambda [] of
        Done f \<Rightarrow> Inr (VNode c f)
      | Raised e1 self1 \<Rightarrow>
          (case attempt w c (json_load w rest) deep load_lambda self1 of
             Done f \<Rightarrow> Inr (VNode c f)
           | Raised e2 self2 \<Rightarrow> Inl TypeError))"
| "init w c (BStr s) deep load_lambda =
     (if isfile w s then
        (case attempt w c (load_file w (yaml_load w) s) deep load_lambda [] of
           Done f \<Rightarrow> Inr (VNode c f)
         | Raised e1 self1 \<Rightarrow>
             (case attempt w c (load_file w (json_load w) s) deep load_lambda self1 of
                Done f \<Rightarrow> Inr (VNode c f)
              | Raised e2 self2 \<Rightarrow> init_str w c s deep load_lambda self2))
      else init_str w c s deep load_lambda [])"

text \<open>
  An environment for examples: no variable set, no file, parsers that reject every text.
\<close>

definition empty_world :: world where
  "empty_world =
     \<lparr> getenv = (\<lambda>name. None), eval = (\<lambda>source. Inl EvalError), isfile = (\<lambda>path. False),
       read_file = (\<lambda>path. Inl ValueError), yaml_load = (\<lambda>text. Inl ParseError),
       json_load = (\<lambda>text. Inl ParseError), yaml_dump = (\<lambda>d. Inl ValueError) \<rparr>"

section \<open>Text representation, equality and serialization\<close>

text \<open>
  \<^verbatim>\<open>repr\<close> of a value, as \<^verbatim>\<open>__repr__\<close> needs it: an \<^verbatim>\<open>int\<close> in decimal, a \<^verbatim>\<open>str\<close>
  of ASCII text in quotes (double quotes when it holds a single quote and no double quote)
  with the quote, the backslash and the characters that do not print escaped, a list and
  a \<^verbatim>\<open>dict\<close> with their items, and an instance by \<^verbatim>\<open>__repr__\<close>: the name of its class
  and \<^verbatim>\<open>key=repr(value)\<close> for each entry of \<^verbatim>\<open>__dict__\<close>.
\<close>

definition digit_char :: "nat \<Rightarrow> char" where
  "digit_char n = ''0123456789abcdef'' ! n"

function repr_nat :: "nat \<Rightarrow> string" where
  "repr_nat n = (if n < 10 then [digit_char n] else repr_nat (n div 10) @ [digit_char (n mod 10)])"
  by pat_completeness auto
termination
  by (relation "measure (\<lambda>n. n)") auto

definition repr_int :: "int \<Rightarrow> string" where
  "repr_int i = (if i < 0 then CHR ''-'' # repr_nat (nat (- i)) else repr_nat (nat i))"

definition repr_char :: "char \<Rightarrow> char \<Rightarrow> string" where
  "repr_char quote ch =
     (let n = (of_char ch :: nat) in
      if ch = quote \<or> ch = CHR 0x5C then [CHR 0x5C, ch]
      else if ch = CHR 0x09 then [CHR 0x5C, CHR ''t'']
      else if ch = CHR 0x0A then [CHR 0x5C, CHR ''n'']
      else if ch = CHR 0x0D then [CHR 0x5C, CHR ''r'']
      else if n < 32 \<or> 127 \<le> n
      then [CHR 0x5C, CHR ''x'', digit_char (n div 16), digit_char (n mod 16)]
      else [ch])"

definition repr_str :: "string \<Rightarrow> string" where
  "repr_str s =
     (let quote = (if CHR 0x27 \<in> set s \<and> CHR 0x22 \<notin> set s then CHR 0x22 else CHR 0x27)
      in [quote] @ concat (map (repr_char quote) s) @ [quote])"

fun join :: "string \<Rightarrow> string list \<Rightarrow> string" where
  "join sep [] = []"
| "join sep [x] = x"
| "join sep (x # y # ys) = x @ sep @ join sep (y # ys)"

fun cls_name :: "cls \<Rightarrow> string" where
  "cls_name BasicRick = ''BasicRick''"
| "cls_name ExtendedPickleRick = ''ExtendedPickleRick''"

function (sequential) repr :: "val \<Rightarrow> string"
  and repr_list :: "val list \<Rightarrow> string list"
  and repr_items :: "fields \<Rightarrow> string list"
  and repr_attrs :: "fields \<Rightarrow> string list"
where
  "repr VNone = ''None''"
| "repr (VBool b) = (if b then ''True'' else ''False'')"
| "repr (VInt i) = repr_int i"
| "repr (VStr s) = repr_str s"
| "repr (VList l) = ''['' @ join '', '' (repr_list l) @ '']''"
| "repr (VDict d) = ''{'' @ join '', '' (repr_items d) @ ''}''"
| "repr (VNode c f) = cls_name c @ ''('' @ join '', '' (repr_attrs f) @ '')''"
| "repr_list [] = []"
| "repr_list (v # vs) = repr v # repr_list vs"
| "repr_items [] = []"
| "repr_items ((k, v) # d) = (repr_str k @ '': '' @ repr v) # repr_items d"
| "repr_attrs [] = []"
| "repr_attrs ((k, v) # f) = (k @ ''='' @ repr v) # repr_attrs f"
  by pat_completeness auto
termination
  by (relation "measure (\<lambda>x. case x of
         Inl (Inl v) \<Rightarrow> 2 * size v
       | Inl (Inr l) \<Rightarrow> 2 * size_list size l + 1
       | Inr (Inl d) \<Rightarrow> 2 * fields_size d + 1
       | Inr (Inr f) \<Rightarrow> 2 * fields_size f + 1)") auto

text \<open>\<^verbatim>\<open>__eq__(self, other)\<close> compares the two representations.\<close>

definition node_eq :: "val \<Rightarrow> val \<Rightarrow> bool" where
  "node_eq self other = (repr self = repr other)"

text \<open>
  \<^verbatim>\<open>to_yaml_string(self)\<close>: the method call \<^verbatim>\<open>self.dict()\<close>, then
  \<^verbatim>\<open>yaml.safe_dump\<close> of the result.
\<close>

definition to_yaml_string :: "world \<Rightarrow> fields \<Rightarrow> exn + string" where
  "to_yaml_string w self =
     (case invoke self ''dict'' (dict self) of
        Inl e \<Rightarrow> Inl e
      | Inr self_as_dict \<Rightarrow> yaml_dump w self_as_dict)"

fun call_to_yaml_string :: "world \<Rightarrow> val \<Rightarrow> exn + string" where
  "call_to_yaml_string w (VNode c f) = invoke f ''to_yaml_string'' (to_yaml_string w f)"
| "call_to_yaml_string w v = Inl AttributeError"

section \<open>Comparing the two builders\<close>

text \<open>
  A value with every instance in it, at any depth and inside lists too, taken as a
  \<^verbatim>\<open>BasicRick\<close> with the same fields: what is left of a tree when the class of its
  nodes is disregarded.
\<close>

function (sequential) as_basic :: "val \<Rightarrow> val"
  and as_basic_list :: "val list \<Rightarrow> val list"
  and as_basic_fields :: "fields \<Rightarrow> fields"
where
  "as_basic (VNode c f) = VNode BasicRick (as_basic_fields f)"
| "as_basic (VDict d) = VDict (as_basic_fields d)"
| "as_basic (VList l) = VList (as_basic_list l)"
| "as_basic v = v"
| "as_basic_list [] = []"
| "as_basic_list (v # vs) = as_basic v # as_basic_list vs"
| "as_basic_fields [] = []"
| "as_basic_fields ((k, v) # f) = (k, as_basic v) # as_basic_fields f"
  by pat_completeness auto
termination
  by (relation "measure (\<lambda>x. case x of
         Inl v \<Rightarrow> 2 * size v
       | Inr (Inl l) \<Rightarrow> 2 * size_list size l + 1
       | Inr (Inr f) \<Rightarrow> 2 * fields_size f + 1)") auto

text \<open>
  A mapping that the resolver treats as a placeholder, and a mapping in which no nested
  mapping, as a value or as an element of a list, is one.
\<close>

definition is_placeholder :: "fields \<Rightarrow> bool" where
  "is_placeholder d =
     (map_of d ''type'' = Some (VStr ''env'') \<or> map_of d ''type'' = Some (VStr ''lambda''))"

function (sequential) placeholder_free :: "fields \<Rightarrow> bool"
  and placeholder_free_list :: "val list \<Rightarrow> bool"
where
  "placeholder_free [] = True"
| "placeholder_free ((k, VDict d) # items) =
     (\<not> is_placeholder d \<and> placeholder_free d \<and> placeholder_free items)"
| "placeholder_free ((k, VList l) # items) = (placeholder_free_list l \<and> placeholder_free items)"
| "placeholder_free ((k, v) # items) = placeholder_free items"
| "placeholder_free_list [] = True"
| "placeholder_free_list (VDict d # rest) =
     (\<not> is_placeholder d \<and> placeholder_free d \<and> placeholder_free_list rest)"
| "placeholder_free_list (i # rest) = placeholder_free_list rest"
  by pat_completeness auto
termination
  by (relation "measure (\<lambda>x. case x of
         Inl items \<Rightarrow> fields_size items
       | Inr l \<Rightarrow> size_list size l)") auto

section \<open>Auxiliary facts\<close>

lemma has_key_iff: "has_key d k \<longleftrightarrow> k \<in> fst ` set d"
  by (simp add: has_key_def map_of_eq_None_iff)

lemma has_key_append: "has_key (a @ b) k \<longleftrightarrow> has_key a k \<or> has_key b k"
  by (auto simp: has_key_iff)

lemma has_key_map_values: "has_key (map (\<lambda>(k, v). (k, g v)) d) name = has_key d name"
  by (induction d) (auto simp: has_key_def)

lemma update_fresh: "\<not> has_key al k \<Longrightarrow> AList.update k v al = al @ [(k, v)]"
  by (induction al) (auto simp: has_key_def)

section \<open>The build step\<close>

lemma new_list_basic_eq: "new_list_basic l deep acc = acc @ map (spec_element deep) l"
proof (induction l arbitrary: acc)
  case Nil
  show ?case by simp
next
  case (Cons i l)
  show ?case by (cases i) (simp_all add: Cons.IH spec_element_def build_def)
qed

lemma iternalize_basic_step:
  "iternalize_basic ((k, v) # items) deep self =
     iternalize_basic items deep (AList.update k (spec_stored deep v) self)"
  by (cases v) (simp_all add: spec_stored_def build_def new_list_basic_eq)

lemma iternalize_basic_append:
  "distinct (map fst items) \<Longrightarrow> \<forall>k \<in> fst ` set items. \<not> has_key self k \<Longrightarrow>
   iternalize_basic items deep self = self @ map (\<lambda>(k, v). (k, spec_stored deep v)) items"
proof (induction items arbitrary: self)
  case Nil
  show ?case by simp
next
  case (Cons a items)
  obtain k v where a: "a = (k, v)" by (cases a)
  have fresh: "\<not> has_key self k" using Cons.prems(2) a by simp
  have upd: "AList.update k (spec_stored deep v) self = self @ [(k, spec_stored deep v)]"
    using fresh by (rule update_fresh)
  have d: "distinct (map fst items)" using Cons.prems(1) by simp
  have "\<forall>k' \<in> fst ` set items. \<not> has_key (self @ [(k, spec_stored deep v)]) k'"
    using Cons.prems a by (auto simp: has_key_iff)
  with d have "iternalize_basic items deep (self @ [(k, spec_stored deep v)]) =
      (self @ [(k, spec_stored deep v)]) @ map (\<lambda>(k, v). (k, spec_stored deep v)) items"
    by (rule Cons.IH)
  then show ?case by (simp add: a iternalize_basic_step upd del: iternalize_basic.simps)
qed

lemma build_fields:
  "distinct_keys M \<Longrightarrow>
   iternalize_basic M deep [] = map (\<lambda>(k, v). (k, spec_stored deep v)) M"
  by (simp add: distinct_keys_def iternalize_basic_append has_key_def)

text \<open>
  Claim C5. For every mapping, the node that the build returns has the mapping's keys in
  the mapping's order, and under each key the value the specification describes: the child
  node built from a mapping value; for a list value with \<^verbatim>\<open>deep\<close> set, the list of its
  elements with each mapping element replaced by the child node built from it and every
  other element unchanged; the value itself for a list without \<^verbatim>\<open>deep\<close> (mappings in it
  stay raw) and for every other value.
\<close>

theorem build_stores:
  "distinct_keys M \<Longrightarrow>
   build M deep = VNode BasicRick (map (\<lambda>(k, v). (k, spec_stored deep v)) M)"
proof -
  assume "distinct_keys M"
  then have "distinct (map fst M)" and "\<forall>k \<in> fst ` set M. \<not> has_key [] k"
    by (simp_all add: distinct_keys_def has_key_def)
  then have "iternalize_basic M deep [] = [] @ map (\<lambda>(k, v). (k, spec_stored deep v)) M"
    by (rule iternalize_basic_append)
  then show ?thesis
    by (simp add: build_def)
qed

theorem build_stores_witness:
  "distinct_keys
     [(''a'', VDict [(''b'', VInt 1)]), (''c'', VList [VInt 1, VDict [(''d'', VInt 2)]])] \<and>
   build [(''a'', VDict [(''b'', VInt 1)]), (''c'', VList [VInt 1, VDict [(''d'', VInt 2)]])]
     False =
   VNode BasicRick
     [(''a'', VNode BasicRick [(''b'', VInt 1)]),
      (''c'', VList [VInt 1, VDict [(''d'', VInt 2)]])]"
  using build_stores
    [of "[(''a'', VDict [(''b'', VInt 1)]), (''c'', VList [VInt 1, VDict [(''d'', VInt 2)]])]"
        False]
  by (simp add: distinct_keys_def spec_stored_def build_def)

section \<open>Deconstruction undoes the build\<close>

lemma no_lists_no_nodes: "no_lists items \<Longrightarrow> no_nodes items"
  by (induction items rule: no_lists.induct) simp_all

text \<open>
  On plain data the loop of \<^verbatim>\<open>dict\<close> returns the mapping the node was built from. With
  \<^verbatim>\<open>deep\<close> set this needs a mapping without lists, since the build then changes lists and
  \<^verbatim>\<open>dict\<close> copies them.
\<close>

lemma dict_loop_stored:
  "no_nodes items \<Longrightarrow> deep \<longrightarrow> no_lists items \<Longrightarrow>
   all_levels_items distinct_keys items \<Longrightarrow>
   all_levels_items (\<lambda>d. \<not> has_key d ''dict'') items \<Longrightarrow> distinct (map fst items) \<Longrightarrow>
   \<forall>k \<in> fst ` set items. \<not> has_key acc k \<Longrightarrow>
   dict_loop (map (\<lambda>(k, v). (k, spec_stored deep v)) items) acc = Inr (acc @ items)"
proof (induction items arbitrary: acc
    rule: no_nodes.induct [case_names Nil Dict Node NoneV BoolV IntV StrV ListV])
  case Nil
  show ?case by simp
next
  case (Dict k d items)
  let ?f = "map (\<lambda>(k, v). (k, spec_stored deep v)) d"
  have dk: "distinct_keys d" and nd: "\<not> has_key d ''dict''"
    using Dict.prems by simp_all
  have st: "spec_stored deep (VDict d) = VNode BasicRick ?f"
    using build_fields [OF dk, of deep] by (simp add: spec_stored_def build_def)
  have sub: "dict_loop ?f [] = Inr ([] @ d)"
    using Dict.prems dk
    by (intro Dict.IH(1)) (simp_all add: distinct_keys_def has_key_def)
  have fresh: "\<not> has_key acc k" using Dict.prems(6) by simp
  have rest: "dict_loop (map (\<lambda>(k, v). (k, spec_stored deep v)) items) (acc @ [(k, VDict d)])
      = Inr ((acc @ [(k, VDict d)]) @ items)"
    using Dict.prems by (intro Dict.IH(2)) (auto simp: has_key_append has_key_iff)
  show ?case
    using sub rest nd
    by (simp add: st invoke_def has_key_map_values update_fresh [OF fresh])
next
  case (Node k c f items)
  then show ?case by simp
next
  case (NoneV k items)
  have fresh: "\<not> has_key acc k" using NoneV.prems(6) by simp
  have "dict_loop (map (\<lambda>(k, v). (k, spec_stored deep v)) items) (acc @ [(k, VNone)])
      = Inr ((acc @ [(k, VNone)]) @ items)"
    using NoneV.prems by (intro NoneV.IH) (auto simp: has_key_append has_key_iff)
  then show ?case by (simp add: spec_stored_def update_fresh [OF fresh])
next
  case (BoolV k b items)
  have fresh: "\<not> has_key acc k" using BoolV.prems(6) by simp
  have "dict_loop (map (\<lambda>(k, v). (k, spec_stored deep v)) items) (acc @ [(k, VBool b)])
      = Inr ((acc @ [(k, VBool b)]) @ items)"
    using BoolV.prems by (intro BoolV.IH) (auto simp: has_key_append has_key_iff)
  then show ?case by (simp add: spec_stored_def update_fresh [OF fresh])
next
  case (IntV k i items)
  have fresh: "\<not> has_key acc k" using IntV.prems(6) by simp
  have "dict_loop (map (\<lambda>(k, v). (k, spec_stored deep v)) items) (acc @ [(k, VInt i)])
      = Inr ((acc @ [(k, VInt i)]) @ items)"
    using IntV.prems by (intro IntV.IH) (auto simp: has_key_append has_key_iff)
  then show ?case by (simp add: spec_stored_def update_fresh [OF fresh])
next
  case (StrV k s items)
  have fresh: "\<not> has_key acc k" using StrV.prems(6) by simp
  have "dict_loop (map (\<lambda>(k, v). (k, spec_stored deep v)) items) (acc @ [(k, VStr s)])
      = Inr ((acc @ [(k, VStr s)]) @ items)"
    using StrV.prems by (intro StrV.IH) (auto simp: has_key_append has_key_iff)
  then show ?case by (simp add: spec_stored_def update_fresh [OF fresh])
next
  case (ListV k l items)
  have shallow: "\<not> deep" using ListV.prems(2) by auto
  have fresh: "\<not> has_key acc k" using ListV.prems(6) by simp
  have "dict_loop (map (\<lambda>(k, v). (k, spec_stored deep v)) items) (acc @ [(k, VList l)])
      = Inr ((acc @ [(k, VList l)]) @ items)"
    using ListV.prems shallow by (intro ListV.IH) (auto simp: has_key_append has_key_iff)
  then show ?case using shallow by (simp add: spec_stored_def update_fresh [OF fresh])
qed

lemma dict_of_build:
  assumes "no_nodes M" and "deep \<longrightarrow> no_lists M" and "well_formed M" and "no_key ''dict'' M"
  shows "dict (iternalize_basic M deep []) = Inr M"
proof -
  have dk: "distinct_keys M"
    using assms(3) by (simp add: well_formed_def)
  have "dict_loop (map (\<lambda>(k, v). (k, spec_stored deep v)) M) [] = Inr ([] @ M)"
    using assms dk
    by (intro dict_loop_stored)
       (simp_all add: well_formed_def no_key_def distinct_keys_def has_key_def)
  then show ?thesis
    by (simp add: build_fields [OF dk] dict_def)
qed

text \<open>
  Claim C2, as amended. For every mapping \<^verbatim>\<open>M\<close> without nested lists (scalars and nested
  mappings only) in which no mapping has a key named \<^verbatim>\<open>dict\<close>, building a node from
  \<^verbatim>\<open>M\<close> (with either setting of \<^verbatim>\<open>deep\<close>) and calling \<^verbatim>\<open>dict()\<close> on it returns \<^verbatim>\<open>M\<close>:
  the same keys in the same order, every child node deconstructed again.
\<close>

theorem dict_build_inverse:
  assumes "no_lists M" and "well_formed M" and "no_key ''dict'' M"
  shows "call_dict (build M deep) = Inr M"
proof -
  have dk: "distinct_keys M" and nd: "\<not> has_key M ''dict''"
    using assms by (simp_all add: well_formed_def no_key_def)
  have "no_nodes M"
    using assms(1) by (rule no_lists_no_nodes)
  then have "dict (iternalize_basic M deep []) = Inr M"
    using assms by (intro dict_of_build) simp_all
  then show ?thesis
    using nd by (simp add: build_def build_fields [OF dk] invoke_def has_key_map_values)
qed

theorem dict_build_inverse_witness:
  "no_lists [(''a'', VDict [(''b'', VInt 1), (''c'', VDict [])]), (''e'', VStr ''x'')] \<and>
   well_formed [(''a'', VDict [(''b'', VInt 1), (''c'', VDict [])]), (''e'', VStr ''x'')] \<and>
   no_key ''dict'' [(''a'', VDict [(''b'', VInt 1), (''c'', VDict [])]), (''e'', VStr ''x'')] \<and>
   call_dict (build [(''a'', VDict [(''b'', VInt 1), (''c'', VDict [])]), (''e'', VStr ''x'')]
     False) =
   Inr [(''a'', VDict [(''b'', VInt 1), (''c'', VDict [])]), (''e'', VStr ''x'')]"
  using dict_build_inverse
    [of "[(''a'', VDict [(''b'', VInt 1), (''c'', VDict [])]), (''e'', VStr ''x'')]" False]
  by (simp add: well_formed_def no_key_def distinct_keys_def has_key_def)

text \<open>
  The claim as stated fails on a mapping with the key \<^verbatim>\<open>dict\<close>: the build stores
  \<^verbatim>\<open>1\<close> in \<^verbatim>\<open>__dict__['dict']\<close>, and \<^verbatim>\<open>node.dict()\<close> then calls the integer.
\<close>

theorem dict_build_inverse_counterexample:
  "no_lists [(''dict'', VInt 1)] \<and>
   call_dict (build [(''dict'', VInt 1)] False) = Inl TypeError"
  by (simp add: build_def invoke_def has_key_def)

section \<open>Search and lookup\<close>

lemma truthy_hd: "xs \<noteq> [] \<Longrightarrow> list_all truthy xs \<Longrightarrow> truthy (hd xs)"
  by (cases xs) simp_all

text \<open>
  The search returns \<^verbatim>\<open>None\<close> when the key is stored at no visited position, and the first
  stored value when every stored value is true.
\<close>

lemma search_spec:
  "(stored_under d key = [] \<longrightarrow> recursive_search d key = VNone) \<and>
   (stored_under d key \<noteq> [] \<longrightarrow> list_all truthy (stored_under d key) \<longrightarrow>
      recursive_search d key = hd (stored_under d key))"
  "(stored_below d' key' = [] \<longrightarrow> search_loop d' key' = VNone) \<and>
   (stored_below d' key' \<noteq> [] \<longrightarrow> list_all truthy (stored_below d' key') \<longrightarrow>
      search_loop d' key' = hd (stored_below d' key'))"
proof (induction d key and d' key' rule: recursive_search_search_loop.induct)
  case (1 dictionary key)
  then show ?case by (cases "map_of dictionary key") simp_all
next
  case (2 key)
  show ?case by simp
next
  case (3 k c f items key)
  then show ?case
    by (cases "stored_under f key = []")
       (auto simp: Let_def hd_append truthy_hd
             simp del: recursive_search.simps stored_under.simps)
next
  case (4 k f items key)
  then show ?case
    by (cases "stored_under f key = []")
       (auto simp: Let_def hd_append truthy_hd
             simp del: recursive_search.simps stored_under.simps)
qed simp_all

lemma search_absent: "stored_under d key = [] \<Longrightarrow> recursive_search d key = VNone"
  using search_spec(1) by blast

lemma search_first:
  "stored_under d key \<noteq> [] \<Longrightarrow> list_all truthy (stored_under d key) \<Longrightarrow>
   recursive_search d key = hd (stored_under d key)"
  using search_spec(1) by blast

lemma iternalize_basic_empty:
  "iternalize_basic items deep self = [] \<longleftrightarrow> items = [] \<and> self = []"
proof (induction items arbitrary: self)
  case Nil
  show ?case by simp
next
  case (Cons a items)
  obtain k v where a: "a = (k, v)" by (cases a)
  show ?case
    by (simp add: a iternalize_basic_step Cons.IH update_nonempty del: iternalize_basic.simps)
qed

lemma truthy_spec_stored: "truthy (spec_stored False v) = truthy v"
  by (cases v) (simp_all add: spec_stored_def build_def iternalize_basic_empty)

lemma map_of_stored:
  "map_of (map (\<lambda>(k, v). (k, g v)) M) k = map_option g (map_of M k)"
  by (induction M) auto

text \<open>
  What holds of \<^verbatim>\<open>get\<close> on a top-level key whose value is true, for a mapping with no
  key named \<^verbatim>\<open>get\<close> or \<^verbatim>\<open>_recursive_search\<close>: on the node built with \<^verbatim>\<open>deep=false\<close> it
  returns the value the build stored under the key, which is \<^verbatim>\<open>M[k]\<close> itself when that is
  not a mapping and the child node built from \<^verbatim>\<open>M[k]\<close> when it is.
\<close>

lemma get_top_level:
  assumes "distinct_keys M" and "map_of M k = Some v" and "truthy v"
    and "\<not> has_key M ''get''" and "\<not> has_key M ''_recursive_search''"
  shows "call_get (build M False) k dflt =
           Inr (case v of VDict d \<Rightarrow> build d False | _ \<Rightarrow> v)"
proof -
  let ?self = "map (\<lambda>(k, v). (k, spec_stored False v)) M"
  have b: "build M False = VNode BasicRick ?self"
    using assms(1) by (simp add: build_def build_fields)
  have found: "recursive_search ?self k = spec_stored False v"
    using assms(2) by (simp add: map_of_stored)
  have t: "truthy (spec_stored False v)"
    using assms(3) by (simp add: truthy_spec_stored)
  have "get ?self k dflt = Inr (spec_stored False v)"
    using assms(5) found t
    by (simp add: get_def invoke_def has_key_map_values Let_def del: recursive_search.simps)
  moreover have "spec_stored False v = (case v of VDict d \<Rightarrow> build d False | _ \<Rightarrow> v)"
    by (cases v) (simp_all add: spec_stored_def)
  ultimately show ?thesis
    using assms(4) by (simp add: b invoke_def has_key_map_values)
qed

lemma get_top_level_example:
  "distinct_keys [(''a'', VDict [(''b'', VInt 1)]), (''n'', VInt 7)] \<and>
   call_get (build [(''a'', VDict [(''b'', VInt 1)]), (''n'', VInt 7)] False) ''n'' VNone =
     Inr (VInt 7) \<and>
   call_get (build [(''a'', VDict [(''b'', VInt 1)]), (''n'', VInt 7)] False) ''a'' VNone =
     Inr (build [(''b'', VInt 1)] False)"
  using
    get_top_level [of "[(''a'', VDict [(''b'', VInt 1)]), (''n'', VInt 7)]" "''n''" "VInt 7" VNone]
    get_top_level [of "[(''a'', VDict [(''b'', VInt 1)]), (''n'', VInt 7)]" "''a''"
      "VDict [(''b'', VInt 1)]" VNone]
  by (simp add: distinct_keys_def has_key_def)

text \<open>
  Claim C1, at the input where the code departs from it. The mapping \<^verbatim>\<open>{'a': 0}\<close> has the
  key \<^verbatim>\<open>a\<close> at its top level, \<^verbatim>\<open>has('a')\<close> is true on the node built from it and
  \<^verbatim>\<open>_recursive_search\<close> returns the stored \<^verbatim>\<open>0\<close>; \<^verbatim>\<open>get\<close> then tests that value with
  \<^verbatim>\<open>if not value\<close>, takes the found \<^verbatim>\<open>0\<close> for nothing found, and \<^verbatim>\<open>get('a', 'missing')\<close>
  returns the default instead of \<^verbatim>\<open>M['a']\<close>.
\<close>

theorem get_false_value_default:
  "map_of [(''a'', VInt 0)] ''a'' = Some (VInt 0) \<and>
   build [(''a'', VInt 0)] False = VNode BasicRick [(''a'', VInt 0)] \<and>
   call_has (build [(''a'', VInt 0)] False) ''a'' False = Inr True \<and>
   recursive_search [(''a'', VInt 0)] ''a'' = VInt 0 \<and>
   call_get (build [(''a'', VInt 0)] False) ''a'' (VStr ''missing'') = Inr (VStr ''missing'')"
  by (simp add: build_def get_def has_def invoke_def has_key_def lower_def upper_def
        char_lower_def char_upper_def)

text \<open>
  Claim C8, as amended. Let the root of a node tree have no field named \<^verbatim>\<open>get\<close> or
  \<^verbatim>\<open>_recursive_search\<close>, and let \<^verbatim>\<open>key\<close> be stored at no position the search visits
  (the root and the nodes and mappings nested in it as field values, not those inside
  lists). If the lowercased key is stored at such positions and every value stored under
  it is true, \<^verbatim>\<open>get(key)\<close> returns the first of them in depth-first order; if the
  lowercased key is stored at none and the uppercased key is, with true values only,
  \<^verbatim>\<open>get(key)\<close> returns the first value stored under the uppercased key. With
  \<^verbatim>\<open>key = 'FOO'\<close> this is the lookup of a key stored as \<^verbatim>\<open>foo\<close>, with \<^verbatim>\<open>key = 'foo'\<close> that
  of a key stored as \<^verbatim>\<open>FOO\<close>.
\<close>

theorem get_case_fallback:
  assumes "\<not> has_key self ''get''" and "\<not> has_key self ''_recursive_search''"
    and "stored_under self key = []"
  shows "(stored_under self (lower key) \<noteq> [] \<and>
          list_all truthy (stored_under self (lower key))
            \<longrightarrow> call_get (VNode c self) key dflt = Inr (hd (stored_under self (lower key)))) \<and>
         (stored_under self (lower key) = [] \<and>
          stored_under self (upper key) \<noteq> [] \<and>
          list_all truthy (stored_under self (upper key))
            \<longrightarrow> call_get (VNode c self) key dflt = Inr (hd (stored_under self (upper key))))"
proof -
  have exact: "recursive_search self key = VNone"
    using assms(3) by (rule search_absent)
  have low: "call_get (VNode c self) key dflt = Inr (hd (stored_under self (lower key)))"
    if "stored_under self (lower key) \<noteq> []" "list_all truthy (stored_under self (lower key))"
  proof -
    have "recursive_search self (lower key) = hd (stored_under self (lower key))"
      using that by (rule search_first)
    moreover have "truthy (hd (stored_under self (lower key)))"
      using that by (rule truthy_hd)
    ultimately show ?thesis
      using assms(1,2) exact
      by (simp add: get_def invoke_def Let_def del: recursive_search.simps stored_under.simps)
  qed
  have up: "call_get (VNode c self) key dflt = Inr (hd (stored_under self (upper key)))"
    if "stored_under self (lower key) = []" "stored_under self (upper key) \<noteq> []"
       "list_all truthy (stored_under self (upper key))"
  proof -
    have "recursive_search self (lower key) = VNone"
      using that(1) by (rule search_absent)
    moreover have "recursive_search self (upper key) = hd (stored_under self (upper key))"
      using that(2,3) by (rule search_first)
    moreover have "truthy (hd (stored_under self (upper key)))"
      using that(2,3) by (rule truthy_hd)
    ultimately show ?thesis
      using assms(1,2) exact
      by (simp add: get_def invoke_def Let_def del: recursive_search.simps stored_under.simps)
  qed
  show ?thesis using low up by blast
qed

theorem get_case_fallback_witness:
  "stored_under [(''a'', VNode BasicRick [(''foo'', VInt 1)])] ''FOO'' = [] \<and>
   stored_under [(''a'', VNode BasicRick [(''foo'', VInt 1)])] ''foo'' = [VInt 1] \<and>
   call_get (VNode BasicRick [(''a'', VNode BasicRick [(''foo'', VInt 1)])]) ''FOO'' VNone =
     Inr (VInt 1) \<and>
   stored_under [(''FOO'', VStr ''x'')] ''foo'' = [] \<and>
   stored_under [(''FOO'', VStr ''x'')] ''FOO'' = [VStr ''x''] \<and>
   call_get (VNode BasicRick [(''FOO'', VStr ''x'')]) ''foo'' VNone = Inr (VStr ''x'')"
  using
    get_case_fallback [of "[(''a'', VNode BasicRick [(''foo'', VInt 1)])]" "''FOO''"
      BasicRick VNone]
    get_case_fallback [of "[(''FOO'', VStr ''x'')]" "''foo''" BasicRick VNone]
  by (simp add: has_key_def lower_def upper_def char_lower_def char_upper_def)

text \<open>
  The claim as stated fails when the key is stored inside a list: the tree built with
  \<^verbatim>\<open>deep=true\<close> from \<^verbatim>\<open>{'c': [{'foo': 1}]}\<close> holds the node \<^verbatim>\<open>BasicRick(foo=1)\<close> in the
  list under \<^verbatim>\<open>c\<close>, no key \<^verbatim>\<open>FOO\<close> anywhere, and \<^verbatim>\<open>get('FOO')\<close> returns the default.
\<close>

theorem get_case_fallback_counterexample:
  "build [(''c'', VList [VDict [(''foo'', VInt 1)]])] True =
     VNode BasicRick [(''c'', VList [VNode BasicRick [(''foo'', VInt 1)]])] \<and>
   call_get (build [(''c'', VList [VDict [(''foo'', VInt 1)]])] True) ''FOO'' VNone = Inr VNone"
  by (simp add: build_def get_def invoke_def has_key_def lower_def upper_def
        char_lower_def char_upper_def)

text \<open>
  Claim C9, as amended. For every node tree whose root has no field named \<^verbatim>\<open>has\<close>,
  \<^verbatim>\<open>get\<close> or \<^verbatim>\<open>_recursive_search\<close>, and every key stored at the top level with a true
  value: \<^verbatim>\<open>has(key)\<close> is true (with either setting of its \<^verbatim>\<open>deep\<close>), and
  \<^verbatim>\<open>get(key, sentinel)\<close> returns the stored value, which is not the sentinel.
\<close>

theorem has_get_agree:
  assumes "\<not> has_key self ''has''" and "\<not> has_key self ''get''"
    and "\<not> has_key self ''_recursive_search''"
    and "map_of self key = Some v" and "truthy v" and "sentinel \<noteq> v"
  shows "call_has (VNode c self) key deep = Inr True \<and>
         call_get (VNode c self) key sentinel = Inr v \<and>
         call_get (VNode c self) key sentinel \<noteq> Inr sentinel"
  using assms by (simp add: has_def get_def invoke_def has_key_def Let_def)

theorem has_get_agree_witness:
  "call_has (VNode BasicRick [(''k'', VInt 1), (''a'', VNode BasicRick [])]) ''k'' False =
     Inr True \<and>
   call_get (VNode BasicRick [(''k'', VInt 1), (''a'', VNode BasicRick [])]) ''k''
     (VStr ''sentinel'') = Inr (VInt 1)"
  using has_get_agree [of "[(''k'', VInt 1), (''a'', VNode BasicRick [])]" "''k''" "VInt 1"
      "VStr ''sentinel''" BasicRick False]
  by (simp add: has_key_def)

text \<open>
  The claim as stated fails for a key stored below the top level: in the tree built from
  \<^verbatim>\<open>{'a': {'k': 1}}\<close> the true value \<^verbatim>\<open>1\<close> is stored under \<^verbatim>\<open>k\<close>, \<^verbatim>\<open>has('k')\<close> is false,
  and \<^verbatim>\<open>get('k', sentinel)\<close> returns \<^verbatim>\<open>1\<close>, not the sentinel.
\<close>

theorem has_get_agree_counterexample:
  "call_has (build [(''a'', VDict [(''k'', VInt 1)])] False) ''k'' False = Inr False \<and>
   call_get (build [(''a'', VDict [(''k'', VInt 1)])] False) ''k'' (VStr ''sentinel'') =
     Inr (VInt 1)"
  by (simp add: build_def has_def get_def invoke_def has_key_def)

section \<open>Keys that are spelled like methods, and false values\<close>

text \<open>
  Each side condition of the theorems above excludes inputs on which the code does
  something else: a key \<^verbatim>\<open>get\<close> or \<^verbatim>\<open>_recursive_search\<close> at the root makes \<^verbatim>\<open>get\<close> raise,
  and a false value stored under the key at the top level hides a true value stored
  deeper.
\<close>

lemma get_shadowed:
  "call_get (build [(''get'', VInt 1)] False) ''get'' VNone = Inl TypeError"
  by (simp add: build_def invoke_def has_key_def)

lemma recursive_search_shadowed:
  "call_get (build [(''_recursive_search'', VInt 1), (''a'', VInt 2)] False) ''a'' VNone =
     Inl TypeError"
  by (simp add: build_def get_def invoke_def has_key_def)

lemma get_first_value_false:
  "call_get (build [(''foo'', VInt 0), (''a'', VDict [(''foo'', VInt 1)])] False) ''FOO'' VNone =
     Inr VNone"
  by (simp add: build_def get_def invoke_def has_key_def lower_def upper_def
        char_lower_def char_upper_def)

section \<open>The placeholder resolver\<close>

lemma iternalize_ext_step:
  "iternalize_ext w ((k, v) # items) deep ll self =
     (case ext_value w v deep ll of
        Inl e \<Rightarrow> Raised e self
      | Inr x \<Rightarrow> iternalize_ext w items deep ll (AList.update k x self))"
  by (cases v)
     (auto simp: ext_value_def build_ext_def subscript_def has_key_def
           split: sum.splits option.splits outcome.splits)

lemma iternalize_ext_keeps:
  "iternalize_ext w items deep ll self = Done f \<Longrightarrow> \<not> has_key items k \<Longrightarrow>
   map_of f k = map_of self k"
proof (induction items arbitrary: self)
  case Nil
  then show ?case by simp
next
  case (Cons a items)
  obtain k' v where a: "a = (k', v)" by (cases a)
  from Cons.prems(2) a have ne: "k' \<noteq> k" and nk: "\<not> has_key items k"
    by (auto simp: has_key_iff)
  from Cons.prems(1) a obtain x where
    x: "ext_value w v deep ll = Inr x" and
    r: "iternalize_ext w items deep ll (AList.update k' x self) = Done f"
    by (auto simp: iternalize_ext_step simp del: iternalize_ext.simps split: sum.splits)
  have "map_of f k = map_of (AList.update k' x self) k"
    using r nk by (rule Cons.IH)
  then show ?case using ne by (simp add: update_conv')
qed

lemma iternalize_ext_stores:
  "iternalize_ext w items deep ll self = Done f \<Longrightarrow> distinct (map fst items) \<Longrightarrow>
   map_of items k = Some v \<Longrightarrow> \<exists>x. ext_value w v deep ll = Inr x \<and> map_of f k = Some x"
proof (induction items arbitrary: self)
  case Nil
  then show ?case by simp
next
  case (Cons a items)
  obtain k' v' where a: "a = (k', v')" by (cases a)
  from Cons.prems(1) a obtain x where
    x: "ext_value w v' deep ll = Inr x" and
    r: "iternalize_ext w items deep ll (AList.update k' x self) = Done f"
    by (auto simp: iternalize_ext_step simp del: iternalize_ext.simps split: sum.splits)
  show ?case
  proof (cases "k' = k")
    case True
    then have v: "v' = v" using Cons.prems(3) a by simp
    have "\<not> has_key items k" using Cons.prems(2) a True by (auto simp: has_key_iff)
    with r have "map_of f k = map_of (AList.update k' x self) k"
      by (rule iternalize_ext_keeps)
    then show ?thesis using True x v by (simp add: update_conv')
  next
    case False
    then have "map_of items k = Some v" using Cons.prems(3) a by simp
    moreover have "distinct (map fst items)" using Cons.prems(2) by simp
    ultimately show ?thesis using r Cons.IH by blast
  qed
qed

lemma init_ext_dict:
  "init w ExtendedPickleRick (BDict M) deep ll = build_ext w M deep ll"
  by (simp add: call_iternalize_def run_iternalize_def build_ext_def has_key_def
           split: outcome.splits)



lemma os_getenv_eval: "os_getenv (w\<lparr>eval := e\<rparr>) key dflt = os_getenv w key dflt"
  by (simp add: os_getenv_def split: val.splits)

lemma eval_unused:
  "iternalize_ext (w\<lparr>eval := e\<rparr>) items deep False self = iternalize_ext w items deep False self"
  "new_list_ext (w\<lparr>eval := e\<rparr>) l deep False acc = new_list_ext w l deep False acc"
proof (induction w items deep "False" self and w l deep "False" acc
       rule: iternalize_ext_new_list_ext.induct)
qed (auto simp: os_getenv_eval split: sum.splits outcome.splits)

lemma init_eval_unused:
  "init (w\<lparr>eval := e\<rparr>) c b deep False = init w c b deep False"
proof -
  have r: "run_iternalize (w\<lparr>eval := e\<rparr>) c d deep False self = run_iternalize w c d deep False self"
    for d self
    by (simp add: run_iternalize_def eval_unused split: cls.splits)
  have ci: "call_iternalize (w\<lparr>eval := e\<rparr>) c cd deep False self = call_iternalize w c cd deep False self"
    for cd self
    by (simp add: call_iternalize_def r split: val.splits)
  have at: "attempt (w\<lparr>eval := e\<rparr>) c p deep False self = attempt w c p deep False self"
    for p self
    by (simp add: attempt_def ci split: sum.splits)
  have lf: "load_file (w\<lparr>eval := e\<rparr>) = load_file w"
    by (simp add: load_file_def fun_eq_iff)
  have st: "init_str (w\<lparr>eval := e\<rparr>) c s deep False self = init_str w c s deep False self"
    for s self
    by (simp add: init_str_def at split: outcome.splits)
  show ?thesis
    by (cases b) (simp_all add: ci at lf st split: outcome.splits)
qed

text \<open>
  Claim C7. For a nested mapping with \<^verbatim>\<open>type: lambda\<close> that the resolver meets as the
  value of a key \<^verbatim>\<open>k\<close>, with \<^verbatim>\<open>x\<close> the content of its \<^verbatim>\<open>load\<close> field: with
  \<^verbatim>\<open>load_lambda\<close> false the step of the build stores the raw \<^verbatim>\<open>x\<close> under \<^verbatim>\<open>k\<close> and goes
  on to the next item, raising nothing; with \<^verbatim>\<open>load_lambda\<close> true it stores the result
  of \<^verbatim>\<open>eval\<close> on \<^verbatim>\<open>x\<close>, or raises what \<^verbatim>\<open>eval\<close> raises. In every node built with
  \<^verbatim>\<open>load_lambda\<close> false the field \<^verbatim>\<open>k\<close> holds the raw \<^verbatim>\<open>x\<close>, and a construction with
  \<^verbatim>\<open>load_lambda\<close> false does not depend on what \<^verbatim>\<open>eval\<close> would return, for any input:
  nothing is evaluated unless the flag is set.
\<close>

theorem lambda_placeholder:
  "(map_of v ''type'' = Some (VStr ''lambda'') \<and> map_of v ''load'' = Some x \<longrightarrow>
      iternalize_ext w ((k, VDict v) # items) deep False self =
        iternalize_ext w items deep False (AList.update k x self) \<and>
      iternalize_ext w ((k, VDict v) # items) deep True self =
        (case py_eval w x of
           Inl err \<Rightarrow> Raised err self
         | Inr y \<Rightarrow> iternalize_ext w items deep True (AList.update k y self))) \<and>
   (distinct_keys M \<and> map_of M k = Some (VDict v) \<and>
    map_of v ''type'' = Some (VStr ''lambda'') \<and> map_of v ''load'' = Some x \<and>
    init w ExtendedPickleRick (BDict M) deep False = Inr (VNode c f) \<longrightarrow>
      map_of f k = Some x) \<and>
   init (w\<lparr>eval := e\<rparr>) ExtendedPickleRick b deep False =
     init w ExtendedPickleRick b deep False"
proof (intro conjI impI)
  assume a: "map_of v ''type'' = Some (VStr ''lambda'') \<and> map_of v ''load'' = Some x"
  then show "iternalize_ext w ((k, VDict v) # items) deep False self =
        iternalize_ext w items deep False (AList.update k x self)"
    by (simp add: subscript_def)
  from a show "iternalize_ext w ((k, VDict v) # items) deep True self =
        (case py_eval w x of
           Inl err \<Rightarrow> Raised err self
         | Inr y \<Rightarrow> iternalize_ext w items deep True (AList.update k y self))"
    by (simp add: subscript_def)
next
  assume a: "distinct_keys M \<and> map_of M k = Some (VDict v) \<and>
    map_of v ''type'' = Some (VStr ''lambda'') \<and> map_of v ''load'' = Some x \<and>
    init w ExtendedPickleRick (BDict M) deep False = Inr (VNode c f)"
  then have "build_ext w M deep False = Inr (VNode c f)"
    by (simp add: init_ext_dict del: init.simps)
  then have fin: "iternalize_ext w M deep False [] = Done f"
    by (auto simp: build_ext_def split: outcome.splits)
  from a have "distinct (map fst M)" and "map_of M k = Some (VDict v)"
    by (simp_all add: distinct_keys_def)
  with fin obtain y where y: "ext_value w (VDict v) deep False = Inr y" and f: "map_of f k = Some y"
    using iternalize_ext_stores by blast
  from a y have "y = x" by (simp add: ext_value_def subscript_def)
  with f show "map_of f k = Some x" by simp
next
  show "init (w\<lparr>eval := e\<rparr>) ExtendedPickleRick b deep False =
     init w ExtendedPickleRick b deep False"
    by (rule init_eval_unused)
qed

theorem lambda_placeholder_witness:
  "init (empty_world\<lparr>eval := (\<lambda>source. Inr (VInt 2))\<rparr>) ExtendedPickleRick
     (BDict [(''f'', VDict [(''type'', VStr ''lambda''), (''load'', VStr ''1 + 1'')]),
             (''n'', VInt 3)]) False False =
     Inr (VNode ExtendedPickleRick [(''f'', VStr ''1 + 1''), (''n'', VInt 3)]) \<and>
   map_of [(''f'', VStr ''1 + 1''), (''n'', VInt 3)] ''f'' = Some (VStr ''1 + 1'') \<and>
   init (empty_world\<lparr>eval := (\<lambda>source. Inr (VInt 2))\<rparr>) ExtendedPickleRick
     (BDict [(''f'', VDict [(''type'', VStr ''lambda''), (''load'', VStr ''1 + 1'')]),
             (''n'', VInt 3)]) False True =
     Inr (VNode ExtendedPickleRick [(''f'', VInt 2), (''n'', VInt 3)]) \<and>
   init (empty_world\<lparr>eval := (\<lambda>source. Inl EvalError)\<rparr>) ExtendedPickleRick
     (BDict [(''f'', VDict [(''type'', VStr ''lambda''), (''load'', VStr ''1 + 1'')]),
             (''n'', VInt 3)]) False False =
     Inr (VNode ExtendedPickleRick [(''f'', VStr ''1 + 1''), (''n'', VInt 3)])"
  using lambda_placeholder
    [of "[(''type'', VStr ''lambda''), (''load'', VStr ''1 + 1'')]"
        "VStr ''1 + 1''" "empty_world\<lparr>eval := (\<lambda>source. Inr (VInt 2))\<rparr>" "''f''"
        "[(''n'', VInt 3)]" False "[]"
        "[(''f'', VDict [(''type'', VStr ''lambda''), (''load'', VStr ''1 + 1'')]),
          (''n'', VInt 3)]"
        ExtendedPickleRick "[(''f'', VStr ''1 + 1''), (''n'', VInt 3)]"
        "\<lambda>source. Inl EvalError"
        "BDict [(''f'', VDict [(''type'', VStr ''lambda''), (''load'', VStr ''1 + 1'')]),
                (''n'', VInt 3)]"]
  by (simp add: empty_world_def distinct_keys_def call_iternalize_def run_iternalize_def
        has_key_def subscript_def py_eval_def)

section \<open>Construction from a mapping, a stream or a string\<close>

text \<open>
  What holds of the constructor: a mapping always gives a \<^verbatim>\<open>BasicRick\<close>; the only
  exception that leaves the constructor on a string is the final \<^verbatim>\<open>ValueError\<close>; the
  only one on a stream is the \<^verbatim>\<open>TypeError\<close> of \<^verbatim>\<open>os.path.isfile\<close>.
\<close>

lemma init_basic_dict: "init w BasicRick (BDict d) deep ll = Inr (build d deep)"
  by (simp add: call_iternalize_def run_iternalize_def has_key_def build_def)

lemma init_str_error: "init w c (BStr s) deep ll = Inl e \<Longrightarrow> e = ValueError"
  by (auto simp: init_str_def split: if_splits outcome.splits)

lemma init_stream_error: "init w c (BStream text rest) deep ll = Inl e \<Longrightarrow> e = TypeError"
  by (auto split: outcome.splits)

text \<open>
  Claim C3, at the input where the code departs from it. The constructor is given an open
  text stream with the text \<^verbatim>\<open>hello\<close>. The YAML parser returns the string \<^verbatim>\<open>'hello'\<close>,
  which has no \<^verbatim>\<open>items()\<close>; the JSON parser rejects what is left of the stream; both
  exceptions are caught. The code then evaluates \<^verbatim>\<open>os.path.isfile(base)\<close> on the stream,
  and \<^verbatim>\<open>TypeError\<close> leaves the constructor: the final \<^verbatim>\<open>raise ValueError\<close> is not
  reached.
\<close>

theorem init_stream_type_error:
  "init (empty_world\<lparr>yaml_load := (\<lambda>text. Inr (VStr text))\<rparr>) BasicRick
     (BStream ''hello'' []) False False = Inl TypeError"
  by (simp add: empty_world_def attempt_def call_iternalize_def has_key_def)

section \<open>The resolver and the base builder on placeholder-free input\<close>

text \<open>
  On a mapping without placeholders the resolver never raises, and its tree is the tree
  of the base builder with \<^verbatim>\<open>ExtendedPickleRick\<close> for \<^verbatim>\<open>BasicRick\<close>; \<^verbatim>\<open>dict()\<close> then
  returns the same mapping for both, up to the class of the nodes it leaves inside lists.
\<close>

lemma as_basic_fields_map: "as_basic_fields f = map (\<lambda>(k, v). (k, as_basic v)) f"
  by (induction f) auto

lemma as_basic_list_map: "as_basic_list l = map as_basic l"
  by (induction l) auto

lemma as_basic_update:
  "as_basic_fields (AList.update k v self) = AList.update k (as_basic v) (as_basic_fields self)"
  by (induction self) auto

lemma has_key_as_basic: "has_key (as_basic_fields f) name = has_key f name"
  by (simp add: as_basic_fields_map has_key_map_values)

lemma resolver_refines:
  "placeholder_free items \<Longrightarrow> as_basic_fields self = as_basic_fields self' \<Longrightarrow>
   \<exists>F. iternalize_ext w items deep ll self = Done F \<and>
       as_basic_fields F = as_basic_fields (iternalize_basic items deep self')"
  "placeholder_free_list l \<Longrightarrow> as_basic_list acc = as_basic_list acc' \<Longrightarrow>
   \<exists>L. new_list_ext w l deep ll acc = Inr L \<and>
       as_basic_list L = as_basic_list (new_list_basic l deep acc')"
proof (induction items and l arbitrary: self self' and acc acc'
       rule: placeholder_free_placeholder_free_list.induct)
  case 1
  then show ?case by simp
next
  case (2 k d items)
  from "2.prems" have pf: "placeholder_free d" "placeholder_free items" "\<not> is_placeholder d"
    by simp_all
  obtain Fd where Fd: "iternalize_ext w d deep ll [] = Done Fd"
    "as_basic_fields Fd = as_basic_fields (iternalize_basic d deep [])"
    using "2.IH"(1) [OF pf(1), of "[]" "[]"] by auto
  have "as_basic_fields (AList.update k (VNode ExtendedPickleRick Fd) self) =
        as_basic_fields (AList.update k (VNode BasicRick (iternalize_basic d deep [])) self')"
    using Fd(2) "2.prems"(2) by (simp add: as_basic_update)
  from "2.IH"(2) [OF pf(2) this]
  show ?case using Fd(1) pf(3) by (simp add: is_placeholder_def)
next
  case (3 k l items)
  from "3.prems" have pf: "placeholder_free_list l" "placeholder_free items"
    by simp_all
  show ?case
  proof (cases deep)
    case True
    obtain L where L: "new_list_ext w l deep ll [] = Inr L"
      "as_basic_list L = as_basic_list (new_list_basic l deep [])"
      using "3.IH"(1) [OF pf(1), of "[]" "[]"] by auto
    have "as_basic_fields (AList.update k (VList L) self) =
          as_basic_fields (AList.update k (VList (new_list_basic l deep [])) self')"
      using L(2) "3.prems"(2) by (simp add: as_basic_update)
    from "3.IH"(2) [OF pf(2) this]
    show ?thesis using L(1) True by simp
  next
    case False
    have "as_basic_fields (AList.update k (VList l) self) =
          as_basic_fields (AList.update k (VList l) self')"
      using "3.prems"(2) by (simp add: as_basic_update)
    from "3.IH"(2) [OF pf(2) this]
    show ?thesis using False by simp
  qed
next
  case (5)
  then show ?case by simp
next
  case (6 d rest)
  from "6.prems" have pf: "placeholder_free d" "placeholder_free_list rest"
    by simp_all
  obtain Fd where Fd: "iternalize_ext w d deep ll [] = Done Fd"
    "as_basic_fields Fd = as_basic_fields (iternalize_basic d deep [])"
    using "6.IH"(1) [OF pf(1), of "[]" "[]"] by auto
  have "as_basic_list (acc @ [VNode ExtendedPickleRick Fd]) =
        as_basic_list (acc' @ [VNode BasicRick (iternalize_basic d deep [])])"
    using Fd(2) "6.prems"(2) by (simp add: as_basic_list_map)
  from "6.IH"(2) [OF pf(2) this]
  show ?case using Fd(1) by simp
qed (auto simp: as_basic_update as_basic_list_map)

lemma dict_loop_as_basic:
  "dict_loop (as_basic_fields items) (as_basic_fields acc) =
     map_sum id as_basic_fields (dict_loop items acc)"
proof (induction items acc rule: dict_loop.induct)
  case (1 d)
  show ?case by simp
next
  case (2 key c f items d)
  show ?case
  proof (cases "has_key f ''dict''")
    case True
    then show ?thesis by (simp add: invoke_def has_key_as_basic)
  next
    case False
    note nk = this
    show ?thesis
    proof (cases "dict_loop f []")
      case (Inl e)
      with nk "2.IH"(1) show ?thesis
        by (auto simp: invoke_def has_key_as_basic)
    next
      case (Inr sub)
      with nk "2.IH"(1) have s: "dict_loop (as_basic_fields f) [] = Inr (as_basic_fields sub)"
        by auto
      have "invoke f ''dict'' (dict_loop f []) = Inr sub"
        using nk Inr by (simp add: invoke_def)
      from "2.IH"(2) [OF this] s nk Inr show ?thesis
        by (simp add: invoke_def has_key_as_basic as_basic_update)
    qed
  qed
qed (simp_all add: as_basic_update)

lemma call_dict_as_basic:
  "as_basic n = as_basic n' \<Longrightarrow>
   map_sum id as_basic_fields (call_dict n) = map_sum id as_basic_fields (call_dict n')"
proof (cases n; cases n')
  fix c f c' f'
  assume n: "n = VNode c f" and n': "n' = VNode c' f'" and eq: "as_basic n = as_basic n'"
  then have f: "as_basic_fields f = as_basic_fields f'" by simp
  have "has_key f ''dict'' = has_key f' ''dict''"
    using f has_key_as_basic by metis
  moreover have "map_sum id as_basic_fields (dict f) = map_sum id as_basic_fields (dict f')"
    using dict_loop_as_basic [of f "[]"] dict_loop_as_basic [of f' "[]"] f
    by (simp add: dict_def)
  ultimately show ?thesis by (simp add: n n' invoke_def)
qed simp_all

lemma resolver_refines_base:
  assumes "placeholder_free M"
  shows "\<exists>n. build_ext w M deep ll = Inr n \<and> as_basic n = as_basic (build M deep) \<and>
             map_sum id as_basic_fields (call_dict n) =
             map_sum id as_basic_fields (call_dict (build M deep))"
proof -
  obtain F where F: "iternalize_ext w M deep ll [] = Done F"
    "as_basic_fields F = as_basic_fields (iternalize_basic M deep [])"
    using resolver_refines(1) [OF assms, of "[]" "[]" w deep ll] by blast
  have b: "build_ext w M deep ll = Inr (VNode ExtendedPickleRick F)"
    using F(1) by (simp add: build_ext_def)
  have a: "as_basic (VNode ExtendedPickleRick F) = as_basic (build M deep)"
    using F(2) by (simp add: build_def)
  from call_dict_as_basic [OF a] a b show ?thesis by simp
qed

text \<open>
  Claim C10, at the input where the code departs from it. The mapping
  \<^verbatim>\<open>{'c': [{'d': 2}]}\<close> has no placeholder. Built with \<^verbatim>\<open>deep=true\<close>, the list under \<^verbatim>\<open>c\<close>
  holds a child node, of class \<^verbatim>\<open>BasicRick\<close> for the base builder and of class
  \<^verbatim>\<open>ExtendedPickleRick\<close> for the resolver; \<^verbatim>\<open>dict()\<close> copies the list with the node in it,
  and the two nodes are not equal by \<^verbatim>\<open>__eq__\<close>, whose \<^verbatim>\<open>repr\<close> starts with the class name.
\<close>

theorem resolver_differs_in_lists:
  "call_dict (build [(''c'', VList [VDict [(''d'', VInt 2)]])] True) =
     Inr [(''c'', VList [VNode BasicRick [(''d'', VInt 2)]])] \<and>
   build_ext empty_world [(''c'', VList [VDict [(''d'', VInt 2)]])] True False =
     Inr (VNode ExtendedPickleRick [(''c'', VList [VNode ExtendedPickleRick [(''d'', VInt 2)]])]) \<and>
   call_dict (VNode ExtendedPickleRick [(''c'', VList [VNode ExtendedPickleRick [(''d'', VInt 2)]])]) =
     Inr [(''c'', VList [VNode ExtendedPickleRick [(''d'', VInt 2)]])] \<and>
   \<not> node_eq (VNode BasicRick [(''d'', VInt 2)]) (VNode ExtendedPickleRick [(''d'', VInt 2)])"
  by (simp add: build_def build_ext_def dict_def invoke_def has_key_def node_eq_def)

section \<open>Serialization to YAML and back\<close>

text \<open>
  Claim C4, as amended. Let \<^verbatim>\<open>M\<close> be a mapping of plain data in which no mapping has a key
  named \<^verbatim>\<open>dict\<close> and the top level has no key named \<^verbatim>\<open>to_yaml_string\<close>. If
  \<^verbatim>\<open>yaml.safe_dump\<close> turns \<^verbatim>\<open>M\<close> into a text from which the YAML parser returns \<^verbatim>\<open>M\<close>
  again, with its keys in the same order at every level, and the text is not the path of
  an existing file, then \<^verbatim>\<open>to_yaml_string\<close> on the node built from \<^verbatim>\<open>M\<close> with
  \<^verbatim>\<open>deep=false\<close> returns that text, and the node built from the text is equal, by
  \<^verbatim>\<open>__eq__\<close>, to the original node.
\<close>

theorem yaml_round_trip:
  assumes "well_formed M" and "no_nodes M" and "no_key ''dict'' M"
    and "\<not> has_key M ''to_yaml_string''"
    and "yaml_dump w M = Inr text" and "yaml_load w text = Inr (VDict M)"
    and "\<not> isfile w text"
  shows "call_to_yaml_string w (build M False) = Inr text \<and>
         (\<exists>n. init w BasicRick (BStr text) False ll = Inr n \<and> node_eq n (build M False))"
proof -
  let ?F = "iternalize_basic M False []"
  have dk: "distinct_keys M" and nd: "\<not> has_key M ''dict''"
    using assms(1,3) by (simp_all add: well_formed_def no_key_def)
  have keys: "has_key ?F name = has_key M name" for name
    by (simp add: build_fields [OF dk] has_key_map_values)
  have "dict ?F = Inr M"
    using assms(1,2,3) by (intro dict_of_build) simp_all
  then have dump: "call_to_yaml_string w (build M False) = Inr text"
    using assms(4,5) nd by (simp add: build_def to_yaml_string_def invoke_def keys)
  have "init w BasicRick (BStr text) False ll = Inr (build M False)"
    using assms(6,7)
    by (simp add: init_str_def attempt_def call_iternalize_def run_iternalize_def
          has_key_def build_def)
  then have "\<exists>n. init w BasicRick (BStr text) False ll = Inr n \<and> node_eq n (build M False)"
    by (simp add: node_eq_def)
  with dump show ?thesis by simp
qed

theorem yaml_round_trip_witness:
  "call_to_yaml_string
     (empty_world\<lparr>yaml_dump := (\<lambda>d. Inr (''a:'' @ [CHR 0x0A] @ ''  b: 1'' @ [CHR 0x0A] @ ''c:'' @ [CHR 0x0A] @ ''- 1'' @ [CHR 0x0A] @
       ''- d: 2'' @ [CHR 0x0A])),
        yaml_load := (\<lambda>text. Inr (VDict [(''a'', VDict [(''b'', VInt 1)]),
                                          (''c'', VList [VInt 1, VDict [(''d'', VInt 2)]])]))\<rparr>)
     (build [(''a'', VDict [(''b'', VInt 1)]), (''c'', VList [VInt 1, VDict [(''d'', VInt 2)]])] False) =
     Inr (''a:'' @ [CHR 0x0A] @ ''  b: 1'' @ [CHR 0x0A] @ ''c:'' @ [CHR 0x0A] @ ''- 1'' @ [CHR 0x0A] @
       ''- d: 2'' @ [CHR 0x0A]) \<and>
   init
     (empty_world\<lparr>yaml_dump := (\<lambda>d. Inr (''a:'' @ [CHR 0x0A] @ ''  b: 1'' @ [CHR 0x0A] @ ''c:'' @ [CHR 0x0A] @ ''- 1'' @ [CHR 0x0A] @
       ''- d: 2'' @ [CHR 0x0A])),
        yaml_load := (\<lambda>text. Inr (VDict [(''a'', VDict [(''b'', VInt 1)]),
                                          (''c'', VList [VInt 1, VDict [(''d'', VInt 2)]])]))\<rparr>)
     BasicRick (BStr (''a:'' @ [CHR 0x0A] @ ''  b: 1'' @ [CHR 0x0A] @ ''c:'' @ [CHR 0x0A] @ ''- 1'' @ [CHR 0x0A] @
       ''- d: 2'' @ [CHR 0x0A])) False False =
     Inr (VNode BasicRick [(''a'', VNode BasicRick [(''b'', VInt 1)]),
                           (''c'', VList [VInt 1, VDict [(''d'', VInt 2)]])])"
  using yaml_round_trip
    [of "[(''a'', VDict [(''b'', VInt 1)]), (''c'', VList [VInt 1, VDict [(''d'', VInt 2)]])]"
        "empty_world\<lparr>yaml_dump := (\<lambda>d. Inr (''a:'' @ [CHR 0x0A] @ ''  b: 1'' @ [CHR 0x0A] @ ''c:'' @ [CHR 0x0A] @ ''- 1'' @ [CHR 0x0A] @
       ''- d: 2'' @ [CHR 0x0A])),
           yaml_load := (\<lambda>text. Inr (VDict [(''a'', VDict [(''b'', VInt 1)]),
                                             (''c'', VList [VInt 1, VDict [(''d'', VInt 2)]])]))\<rparr>"
        "''a:'' @ [CHR 0x0A] @ ''  b: 1'' @ [CHR 0x0A] @ ''c:'' @ [CHR 0x0A] @ ''- 1'' @ [CHR 0x0A] @
       ''- d: 2'' @ [CHR 0x0A]" False]
  by (simp add: empty_world_def well_formed_def no_key_def distinct_keys_def has_key_def
        init_str_def attempt_def call_iternalize_def run_iternalize_def)

text \<open>
  The claim as stated fails when the serializer does not keep the order of the keys, as
  \<^verbatim>\<open>yaml.safe_dump\<close> does not: it sorts the keys of a mapping (its \<^verbatim>\<open>sort_keys\<close> defaults
  to true), so \<^verbatim>\<open>{'b': 1, 'a': 2}\<close> is written as \<^verbatim>\<open>a: 2\<close>, \<^verbatim>\<open>b: 1\<close>. The node built from
  that text prints as \<^verbatim>\<open>BasicRick(a=2, b=1)\<close>, the original as \<^verbatim>\<open>BasicRick(b=1, a=2)\<close>, and
  \<^verbatim>\<open>__eq__\<close> compares these two strings.
\<close>

theorem yaml_round_trip_counterexample:
  "call_to_yaml_string
     (empty_world\<lparr>yaml_dump := (\<lambda>d. Inr (''a: 2'' @ [CHR 0x0A] @ ''b: 1'' @ [CHR 0x0A])),
        yaml_load := (\<lambda>text. Inr (VDict [(''a'', VInt 2), (''b'', VInt 1)]))\<rparr>)
     (build [(''b'', VInt 1), (''a'', VInt 2)] False) =
     Inr (''a: 2'' @ [CHR 0x0A] @ ''b: 1'' @ [CHR 0x0A]) \<and>
   init
     (empty_world\<lparr>yaml_dump := (\<lambda>d. Inr (''a: 2'' @ [CHR 0x0A] @ ''b: 1'' @ [CHR 0x0A])),
        yaml_load := (\<lambda>text. Inr (VDict [(''a'', VInt 2), (''b'', VInt 1)]))\<rparr>)
     BasicRick (BStr (''a: 2'' @ [CHR 0x0A] @ ''b: 1'' @ [CHR 0x0A])) False False =
     Inr (VNode BasicRick [(''a'', VInt 2), (''b'', VInt 1)]) \<and>
   \<not> node_eq (VNode BasicRick [(''a'', VInt 2), (''b'', VInt 1)])
        (build [(''b'', VInt 1), (''a'', VInt 2)] False)"
  by (simp add: empty_world_def build_def to_yaml_string_def dict_def invoke_def has_key_def
        init_str_def attempt_def call_iternalize_def run_iternalize_def node_eq_def
        repr_int_def digit_char_def)

end
